theory Spec2Isabelle
  imports Main
begin

section \<open>Python values and errors\<close>

text \<open>
  Exceptions of the Python code are values: every function that can raise returns
  \<open>py_error + 'a\<close>, with \<open>Inl\<close> the exception.
\<close>

datatype py_error =
    ValueError
  | ZeroDivisionError
  | KeyError string
  | TypeError
  | AttributeError
  | OverflowError
  | UnboundLocalError string

text \<open>
  A list comprehension whose element expression can raise: the elements are evaluated
  from left to right and the first exception leaves the comprehension.
\<close>

fun map_err :: "('a \<Rightarrow> py_error + 'b) \<Rightarrow> 'a list \<Rightarrow> py_error + 'b list" where
  "map_err f [] = Inr []"
| "map_err f (x # xs) =
     (case f x of
        Inl e \<Rightarrow> Inl e
      | Inr y \<Rightarrow> (case map_err f xs of Inl e \<Rightarrow> Inl e | Inr ys \<Rightarrow> Inr (y # ys)))"

text \<open>
  Sequencing of statements that can raise: the first exception ends the block.
\<close>

definition bind_err :: "py_error + 'a \<Rightarrow> ('a \<Rightarrow> py_error + 'b) \<Rightarrow> py_error + 'b" where
  "bind_err m f = (case m of Inl e \<Rightarrow> Inl e | Inr x \<Rightarrow> f x)"

text \<open>
  Python floats are IEEE doubles. The two float operations the feature code uses, true
  division of two integers (\<open>a / b\<close> with \<open>b \<noteq> 0\<close>) and \<open>round(x, 3)\<close>, are taken as
  parameters over an arbitrary carrier \<open>'f\<close>; the division by zero that Python checks
  before dividing is modelled in \<open>py_truediv\<close>.
\<close>

record 'f float_ops =
  truediv :: "int \<Rightarrow> int \<Rightarrow> 'f"
  round3 :: "'f \<Rightarrow> 'f"
  times100 :: "'f \<Rightarrow> 'f"

text \<open>
  The values that occur in the cells of the data frame and in the feature lists: integers,
  floats, strings and lists of values.
\<close>

datatype 'f pyval = PInt int | PFloat 'f | PStr string | PList "'f pyval list"

definition py_truediv :: "'f float_ops \<Rightarrow> int \<Rightarrow> int \<Rightarrow> py_error + 'f" where
  "py_truediv ops a b = (if b = 0 then Inl ZeroDivisionError else Inr (truediv ops a b))"

section \<open>\<open>str.count\<close>\<close>

text \<open>
  \<open>sequence.count(sub)\<close> scans from the left; a match consumes its characters, so the
  next search starts behind it. For the empty \<open>sub\<close> Python returns \<open>len(sequence) + 1\<close>.
  \<open>str_count_ne\<close> is the scan for a non-empty \<open>sub\<close>: after a match at the head it skips
  the \<open>length sub - 1\<close> remaining characters of the match.
\<close>

function str_count_ne :: "'a list \<Rightarrow> 'a list \<Rightarrow> nat" where
  "str_count_ne [] sub = 0"
| "str_count_ne (c # cs) sub =
     (if take (length sub) (c # cs) = sub
      then Suc (str_count_ne (drop (length sub - 1) cs) sub)
      else str_count_ne cs sub)"
  by pat_completeness auto
termination
  by (relation "measure (\<lambda>(s, sub). length s)") auto

definition str_count :: "'a list \<Rightarrow> 'a list \<Rightarrow> int" where
  "str_count s sub = (if sub = [] then int (length s) + 1 else int (str_count_ne s sub))"


section \<open>The k-mer enumeration\<close>

definition amino_acids :: string where
  "amino_acids = ''ACDEFGHIKLMNPQRSTVWY''"

text \<open>
  \<open>itertools.product(pool, repeat=n)\<close> reads \<open>repeat\<close> as a C \<open>ssize_t\<close>: an integer
  outside \<open>-ssize_max - 1 .. ssize_max\<close> raises \<open>OverflowError\<close> (64-bit platform). A
  negative \<open>repeat\<close> in that range raises \<open>ValueError\<close>. Otherwise the result is built
  pool by pool, \<open>result = [x + [y] for x in result for y in pool]\<close> starting from
  \<open>[[]]\<close>, which is the order the iterator yields. The product is returned whole: that
  the memory of the machine bounds the feasible \<open>n\<close> is not modelled.
\<close>

definition ssize_max :: int where
  "ssize_max = 9223372036854775807"

definition product_step :: "'a list list \<Rightarrow> 'a list \<Rightarrow> 'a list list" where
  "product_step result pool = concat (map (\<lambda>x. map (\<lambda>y. x @ [y]) pool) result)"

definition product_repeat :: "'a list \<Rightarrow> int \<Rightarrow> py_error + 'a list list" where
  "product_repeat pool n =
     (if n < - ssize_max - 1 \<or> ssize_max < n then Inl OverflowError
      else if n < 0 then Inl ValueError
      else Inr (foldl product_step [[]] (replicate (nat n) pool)))"

text \<open>
  Iterating over the string \<open>amino_acids\<close> yields its one-character strings; each tuple
  of the product is joined with \<open>''.join\<close>.
\<close>

definition str_iter :: "string \<Rightarrow> string list" where
  "str_iter s = map (\<lambda>c. [c]) s"

definition ngrams :: "int \<Rightarrow> py_error + string list" where
  "ngrams n =
     (case product_repeat (str_iter amino_acids) n of
        Inl e \<Rightarrow> Inl e
      | Inr tuples \<Rightarrow> Inr (map concat tuples))"

section \<open>The two extractors\<close>

text \<open>
  The docstrings give \<open>sequence\<close> as a \<open>str\<close>; the functions themselves only call
  \<open>sequence.count\<close> and \<open>len(sequence)\<close>. A string counts substrings, a list counts
  the elements equal to the argument, a number has neither method.
\<close>

definition py_count :: "'f pyval \<Rightarrow> string \<Rightarrow> py_error + int" where
  "py_count v sub =
     (case v of
        PStr s \<Rightarrow> Inr (str_count s sub)
      | PList xs \<Rightarrow> Inr (int (count_list xs (PStr sub)))
      | PInt i \<Rightarrow> Inl AttributeError
      | PFloat x \<Rightarrow> Inl AttributeError)"

definition py_len :: "'f pyval \<Rightarrow> py_error + int" where
  "py_len v =
     (case v of
        PStr s \<Rightarrow> Inr (int (length s))
      | PList xs \<Rightarrow> Inr (int (length xs))
      | PInt i \<Rightarrow> Inl TypeError
      | PFloat x \<Rightarrow> Inl TypeError)"

definition generate_ngram_composition ::
    "'f float_ops \<Rightarrow> 'f pyval \<Rightarrow> int \<Rightarrow> py_error + 'f list" where
  "generate_ngram_composition ops sequence n =
     (case ngrams n of
        Inl e \<Rightarrow> Inl e
      | Inr ngs \<Rightarrow>
          map_err (\<lambda>ngram.
            case py_count sequence ngram of
              Inl e \<Rightarrow> Inl e
            | Inr c \<Rightarrow>
                (case py_len sequence of
                   Inl e \<Rightarrow> Inl e
                 | Inr l \<Rightarrow>
                     (case py_truediv ops c l of
                        Inl e \<Rightarrow> Inl e
                      | Inr q \<Rightarrow> Inr (round3 ops q)))) ngs)"

definition generate_ngram_occurences :: "'f pyval \<Rightarrow> int \<Rightarrow> py_error + int list" where
  "generate_ngram_occurences sequence n =
     (case ngrams n of
        Inl e \<Rightarrow> Inl e
      | Inr ngs \<Rightarrow> map_err (\<lambda>ngram. py_count sequence ngram) ngs)"

section \<open>The data frame and the feature assembly\<close>

text \<open>
  A pandas data frame: the column labels and the rows, each row a map from column label
  to cell. \<open>df[c]\<close> raises \<open>KeyError\<close> for a label that is not a column; \<open>df[c] = values\<close>
  replaces or appends the column.
\<close>

record 'f frame =
  col_names :: "string list"
  rows :: "(string \<rightharpoonup> 'f pyval) list"

definition get_column :: "'f frame \<Rightarrow> string \<Rightarrow> py_error + 'f pyval list" where
  "get_column df c =
     (if c \<in> set (col_names df)
      then map_err (\<lambda>row. case row c of None \<Rightarrow> Inl (KeyError c) | Some v \<Rightarrow> Inr v) (rows df)
      else Inl (KeyError c))"

definition set_column :: "'f frame \<Rightarrow> string \<Rightarrow> 'f pyval list \<Rightarrow> 'f frame" where
  "set_column df c vals =
     \<lparr> col_names = (if c \<in> set (col_names df) then col_names df else col_names df @ [c]),
       rows = map (\<lambda>(row, v). row(c \<mapsto> v)) (zip (rows df) vals) \<rparr>"

text \<open>
  \<open>df[name] = df['Sequence'].apply(f)\<close>, where \<open>f\<close> is one of the lambdas of
  \<open>generate_features\<close>.
\<close>

definition assign_feature ::
    "'f frame \<Rightarrow> string \<Rightarrow> ('f pyval \<Rightarrow> py_error + 'f pyval) \<Rightarrow> py_error + 'f frame" where
  "assign_feature df name f =
     (case get_column df ''Sequence'' of
        Inl e \<Rightarrow> Inl e
      | Inr col \<Rightarrow>
          (case map_err f col of
             Inl e \<Rightarrow> Inl e
           | Inr vals \<Rightarrow> Inr (set_column df name vals)))"

definition composition_cell :: "'f float_ops \<Rightarrow> int \<Rightarrow> 'f pyval \<Rightarrow> py_error + 'f pyval" where
  "composition_cell ops n seq =
     (case generate_ngram_composition ops seq n of
        Inl e \<Rightarrow> Inl e
      | Inr xs \<Rightarrow> Inr (PList (map PFloat xs)))"

definition occurences_cell :: "int \<Rightarrow> 'f pyval \<Rightarrow> py_error + 'f pyval" where
  "occurences_cell n seq =
     (case generate_ngram_occurences seq n of
        Inl e \<Rightarrow> Inl e
      | Inr xs \<Rightarrow> Inr (PList (map PInt xs)))"

fun generate_features ::
    "'f float_ops \<Rightarrow> 'f frame \<Rightarrow> string list \<Rightarrow> py_error + 'f frame" where
  "generate_features ops df [] = Inr df"
| "generate_features ops df (feat_name # rest) =
     (case (if feat_name = ''MonogramComp''
            then assign_feature df ''MonogramComp'' (composition_cell ops 1)
            else if feat_name = ''BigramComp''
            then assign_feature df ''BigramComp'' (composition_cell ops 2)
            else if feat_name = ''TrigramComp''
            then assign_feature df ''TrigramComp'' (composition_cell ops 3)
            else if feat_name = ''MonogramOccur''
            then assign_feature df ''MonogramOccur'' (occurences_cell 1)
            else assign_feature df ''BigramOccur'' (occurences_cell 2)) of
        Inl e \<Rightarrow> Inl e
      | Inr df' \<Rightarrow> generate_features ops df' rest)"

text \<open>
  \<open>concatenated_list += row[col]\<close>: a missing label raises \<open>KeyError\<close>; \<open>+=\<close> on a list
  extends it with the elements of any iterable, so a list cell contributes its elements,
  a string cell its characters, and a number raises \<open>TypeError\<close>.
\<close>

definition list_iadd :: "'f pyval list \<Rightarrow> 'f pyval \<Rightarrow> py_error + 'f pyval list" where
  "list_iadd acc v =
     (case v of
        PList xs \<Rightarrow> Inr (acc @ xs)
      | PStr s \<Rightarrow> Inr (acc @ map (\<lambda>c. PStr [c]) s)
      | PInt i \<Rightarrow> Inl TypeError
      | PFloat x \<Rightarrow> Inl TypeError)"

fun concatenate_loop ::
    "(string \<rightharpoonup> 'f pyval) \<Rightarrow> 'f pyval list \<Rightarrow> string list \<Rightarrow> py_error + 'f pyval list" where
  "concatenate_loop row acc [] = Inr acc"
| "concatenate_loop row acc (col # cols) =
     (case row col of
        None \<Rightarrow> Inl (KeyError col)
      | Some v \<Rightarrow>
          (case list_iadd acc v of
             Inl e \<Rightarrow> Inl e
           | Inr acc' \<Rightarrow> concatenate_loop row acc' cols))"

definition concatenate_columns ::
    "(string \<rightharpoonup> 'f pyval) \<Rightarrow> string list \<Rightarrow> py_error + 'f pyval list" where
  "concatenate_columns row columns = concatenate_loop row [] columns"

text \<open>
  \<open>feature_df.apply(lambda row: concatenate_columns(row, features), axis=1)\<close>. On a frame
  with records the function is applied to each row and the lists are collected. On a frame
  without records pandas calls the function once on a row of NaN to see what it returns;
  it raises for every non-empty list of features (a missing label, or NaN is not
  iterable), pandas then returns a copy of the frame, and assigning that frame to the
  single column \<open>Features\<close> raises \<open>ValueError\<close>. For the empty list of features the
  function returns \<open>[]\<close> and the column is assigned without records.
\<close>

definition apply_rows ::
    "'f frame \<Rightarrow> string list \<Rightarrow> py_error + 'f pyval list list" where
  "apply_rows feature_df features =
     (if rows feature_df = [] \<and> features \<noteq> [] then Inl ValueError
      else map_err (\<lambda>row. concatenate_columns row features) (rows feature_df))"

text \<open>
  \<open>np.array(X_data)\<close>: the entries of the row vectors are scalars (the cells of a frame
  read from a CSV file are), and numpy raises \<open>ValueError\<close> when the rows differ in
  length.
\<close>

definition np_array :: "'a list list \<Rightarrow> py_error + 'a list list" where
  "np_array X_data =
     (if \<exists>r \<in> set X_data. \<exists>r' \<in> set X_data. length r \<noteq> length r' then Inl ValueError
      else Inr X_data)"

text \<open>
  \<open>process_features\<close> from the data frame on: \<open>data_df\<close> is the frame that
  \<open>pd.read_csv\<close> and the shuffle \<open>sample(frac = 1)\<close> produced. The result is
  \<open>X_data\<close> as an array (one row vector per record), the labels and the sequences.
\<close>

definition process_features ::
    "'f float_ops \<Rightarrow> 'f frame \<Rightarrow> string list \<Rightarrow>
       py_error + ('f pyval list list \<times> 'f pyval list \<times> 'f pyval list)" where
  "process_features ops data_df features =
     (case generate_features ops data_df features of
        Inl e \<Rightarrow> Inl e
      | Inr feature_df \<Rightarrow>
          (case apply_rows feature_df features of
             Inl e \<Rightarrow> Inl e
           | Inr X_data \<Rightarrow>
               (let feature_df2 = set_column feature_df ''Features'' (map PList X_data) in
                case get_column feature_df2 ''Label'' of
                  Inl e \<Rightarrow> Inl e
                | Inr label \<Rightarrow>
                    (case get_column feature_df2 ''Sequence'' of
                       Inl e \<Rightarrow> Inl e
                     | Inr sequences \<Rightarrow>
                         (case np_array X_data of
                            Inl e \<Rightarrow> Inl e
                          | Inr X \<Rightarrow> Inr (X, label, sequences))))))"

section \<open>The evaluation harness\<close>

text \<open>
  numpy's float64: finite values over the carrier \<open>'f\<close>, the two infinities and NaN.
  The cells of the confusion matrix are numpy integers, and \<open>/\<close> on them is numpy's true
  division: a zero divisor raises nothing, it gives NaN for \<open>0 / 0\<close> and an infinity
  otherwise (with a RuntimeWarning on the console).
\<close>

datatype 'f np_float = NaN | PosInf | NegInf | Finite 'f

definition np_true_divide :: "'f float_ops \<Rightarrow> int \<Rightarrow> int \<Rightarrow> 'f np_float" where
  "np_true_divide ops a b =
     (if b = 0 then (if a = 0 then NaN else if 0 < a then PosInf else NegInf)
      else Finite (truediv ops a b))"

definition np_times100 :: "'f float_ops \<Rightarrow> 'f np_float \<Rightarrow> 'f np_float" where
  "np_times100 ops x =
     (case x of NaN \<Rightarrow> NaN | PosInf \<Rightarrow> PosInf | NegInf \<Rightarrow> NegInf
      | Finite v \<Rightarrow> Finite (times100 ops v))"

datatype kernel = RBF | Linear

text \<open>
  scikit-learn is outside the repository: the classifier and the metric functions are
  parameters. Each may raise. \<open>svc_fit\<close> is \<open>SVC(...).fit\<close>, \<open>svc_predict\<close> and
  \<open>svc_predict_proba1\<close> are \<open>predict\<close> and the second column of \<open>predict_proba\<close>;
  \<open>roc_auc\<close> is \<open>roc_curve\<close> followed by \<open>auc\<close>.
\<close>

record ('x, 'm, 'f) sklearn =
  svc_fit :: "kernel \<Rightarrow> 'x \<Rightarrow> int list \<Rightarrow> py_error + 'm"
  svc_predict :: "'m \<Rightarrow> 'x \<Rightarrow> py_error + int list"
  svc_predict_proba1 :: "'m \<Rightarrow> 'x \<Rightarrow> py_error + 'f np_float list"
  accuracy_score :: "int list \<Rightarrow> int list \<Rightarrow> py_error + 'f np_float"
  f1_score :: "int list \<Rightarrow> int list \<Rightarrow> py_error + 'f np_float"
  matthews_corrcoef :: "int list \<Rightarrow> int list \<Rightarrow> py_error + 'f np_float"
  recall_score :: "int list \<Rightarrow> int list \<Rightarrow> py_error + 'f np_float"
  roc_auc :: "int list \<Rightarrow> 'f np_float list \<Rightarrow> py_error + 'f np_float"

text \<open>
  \<open>confusion_matrix(y_true, y_pred)\<close> without \<open>labels\<close>: the labels are the sorted
  distinct values of both arrays, and cell \<open>(i, j)\<close> counts the samples with true label
  \<open>labels[i]\<close> and predicted label \<open>labels[j]\<close>. Arrays of different lengths raise
  \<open>ValueError\<close>.
\<close>

definition confusion_matrix :: "int list \<Rightarrow> int list \<Rightarrow> py_error + int list list" where
  "confusion_matrix y_true y_pred =
     (if length y_true \<noteq> length y_pred then Inl ValueError
      else
        (let labels = sort (remdups (y_true @ y_pred)) in
         Inr (map (\<lambda>a. map (\<lambda>b. int (length (filter (\<lambda>tp. tp = (a, b)) (zip y_true y_pred))))
                          labels) labels)))"

text \<open>
  \<open>CM += m\<close> for the 2 by 2 zero matrix \<open>CM\<close>: numpy broadcasts a 1 by 1 matrix to all
  four cells, adds a 2 by 2 matrix cell by cell and raises \<open>ValueError\<close> for any other
  shape. The result is given flattened, as \<open>CM.ravel()\<close> reads it.
\<close>

definition cm_iadd_ravel :: "int list list \<Rightarrow> py_error + (int \<times> int \<times> int \<times> int)" where
  "cm_iadd_ravel m =
     (if map length m = [1]
      then Inr (0 + m ! 0 ! 0, 0 + m ! 0 ! 0, 0 + m ! 0 ! 0, 0 + m ! 0 ! 0)
      else if map length m = [2, 2]
      then Inr (0 + m ! 0 ! 0, 0 + m ! 0 ! 1, 0 + m ! 1 ! 0, 0 + m ! 1 ! 1)
      else Inl ValueError)"

record 'f report =
  output_rows :: "(string \<times> string \<times> string) list"
  true_negative :: int
  false_positive :: int
  false_negative :: int
  true_positive :: int
  accuracy :: "'f np_float"
  sensitivity :: "'f np_float"
  specificity :: "'f np_float"
  f1 :: "'f np_float"
  mcc :: "'f np_float"
  auc_mean :: "'f np_float"

definition label_text :: "int \<Rightarrow> string" where
  "label_text label = (if label = 1 then ''Positive'' else ''Negative'')"

text \<open>
  The model selection of \<open>classifiers\<close>: the \<open>if\<close>/\<open>elif\<close> has no \<open>else\<close>, so for
  any other string the local \<open>model1\<close> stays unbound.
\<close>

definition select_model :: "string \<Rightarrow> kernel option" where
  "select_model model =
     (if model = ''svm-rbf'' then Some RBF
      else if model = ''svm-linear'' then Some Linear
      else None)"

text \<open>
  The part of \<open>classifiers\<close> after the model is bound: training, inference, metrics,
  the output table (\<open>pd.DataFrame\<close> raises \<open>ValueError\<close> when its columns differ in
  length) and the printed report. Each list of metrics holds one element, so its
  \<open>np.mean\<close> is that element.
\<close>

definition make_report ::
    "'f float_ops \<Rightarrow> string list \<Rightarrow> int list \<Rightarrow> int list \<Rightarrow> (int \<times> int \<times> int \<times> int) \<Rightarrow>
       'f np_float \<Rightarrow> 'f np_float \<Rightarrow> 'f np_float \<Rightarrow> 'f np_float \<Rightarrow> py_error + 'f report" where
  "make_report ops test_seq y_test y_pred cells acc F1_Score MCC AUC =
     (case cells of (TN, FP, FN, TP) \<Rightarrow>
        if length test_seq \<noteq> length y_test then Inl ValueError
        else Inr \<lparr> output_rows =
                     zip test_seq (zip (map label_text y_test) (map label_text y_pred)),
                   true_negative = TN, false_positive = FP,
                   false_negative = FN, true_positive = TP,
                   accuracy = np_times100 ops acc,
                   sensitivity = np_times100 ops (np_true_divide ops TP (TP + FN)),
                   specificity = np_times100 ops (np_true_divide ops TN (TN + FP)),
                   f1 = F1_Score, mcc = MCC, auc_mean = AUC \<rparr>)"

definition evaluate ::
    "'f float_ops \<Rightarrow> ('x, 'm, 'f) sklearn \<Rightarrow> kernel \<Rightarrow> 'x \<Rightarrow> int list \<Rightarrow> 'x \<Rightarrow> int list \<Rightarrow>
       string list \<Rightarrow> py_error + 'f report" where
  "evaluate ops sk k x_train y_train x_test y_test test_seq =
     bind_err (svc_fit sk k x_train y_train) (\<lambda>model1.
     bind_err (svc_predict sk model1 x_test) (\<lambda>y_pred.
     bind_err (svc_predict_proba1 sk model1 x_test) (\<lambda>y_proba.
     bind_err (confusion_matrix y_test y_pred) (\<lambda>m.
     bind_err (cm_iadd_ravel m) (\<lambda>cells.
     bind_err (accuracy_score sk y_test y_pred) (\<lambda>acc.
     bind_err (f1_score sk y_test y_pred) (\<lambda>F1_Score.
     bind_err (matthews_corrcoef sk y_test y_pred) (\<lambda>MCC.
     bind_err (recall_score sk y_test y_pred) (\<lambda>Recall.
     bind_err (roc_auc sk y_test y_proba) (\<lambda>AUC.
       make_report ops test_seq y_test y_pred cells acc F1_Score MCC AUC))))))))))"

definition classifiers ::
    "'f float_ops \<Rightarrow> ('x, 'm, 'f) sklearn \<Rightarrow> 'x \<Rightarrow> int list \<Rightarrow> 'x \<Rightarrow> int list \<Rightarrow>
       string list \<Rightarrow> string \<Rightarrow> py_error + 'f report" where
  "classifiers ops sk x_train y_train x_test y_test test_seq model =
     (case select_model model of
        None \<Rightarrow> Inl (UnboundLocalError ''model1'')
      | Some k \<Rightarrow> evaluate ops sk k x_train y_train x_test y_test test_seq)"

section \<open>Auxiliary notions for the statements\<close>

text \<open>
  The order of the characters by code point; on \<open>amino_acids\<close> it is the order in which
  the string lists them. \<open>lexord char_order\<close> is the lexicographic order on strings.
\<close>

definition char_order :: "(char \<times> char) set" where
  "char_order = {(a, b). (of_char a :: nat) < of_char b}"


text \<open>
  An instance of the float operations that records which operation was applied to which
  arguments instead of computing a double. It serves to run the model on concrete inputs.
\<close>

datatype sym_float = Quot int int | Round3 sym_float | Times100 sym_float

definition sym_ops :: "sym_float float_ops" where
  "sym_ops = \<lparr> truediv = Quot, round3 = Round3, times100 = Times100 \<rparr>"

text \<open>A data frame of two records, to run the assembly on.\<close>

definition example_frame :: "sym_float frame" where
  "example_frame =
     \<lparr> col_names = [''Sequence'', ''Label''],
       rows = [[''Sequence'' \<mapsto> PStr ''AC'', ''Label'' \<mapsto> PInt 1],
               [''Sequence'' \<mapsto> PStr ''GG'', ''Label'' \<mapsto> PInt 0]] \<rparr>"

text \<open>
  A stand-in for scikit-learn whose classifier predicts a given list of labels and whose
  metric functions return one fixed value, to run the harness on concrete inputs.
\<close>

definition stub_sklearn :: "int list \<Rightarrow> (unit, unit, sym_float) sklearn" where
  "stub_sklearn predicted =
     \<lparr> svc_fit = (\<lambda>k x y. Inr ()),
       svc_predict = (\<lambda>m x. Inr predicted),
       svc_predict_proba1 = (\<lambda>m x. Inr (map (\<lambda>p. Finite (Quot p 1)) predicted)),
       accuracy_score = (\<lambda>t p. Inr (Finite (Quot 1 2))),
       f1_score = (\<lambda>t p. Inr (Finite (Quot 1 2))),
       matthews_corrcoef = (\<lambda>t p. Inr (Finite (Quot 1 2))),
       recall_score = (\<lambda>t p. Inr (Finite (Quot 1 2))),
       roc_auc = (\<lambda>t s. Inr (Finite (Quot 1 2))) \<rparr>"

section \<open>Notions used to state the assembly\<close>

text \<open>The string in the \<open>Sequence\<close> cell of a row (empty if the cell holds no string).\<close>

definition seq_of :: "(string \<rightharpoonup> 'f pyval) \<Rightarrow> string" where
  "seq_of row = (case row ''Sequence'' of Some (PStr s) \<Rightarrow> s | _ \<Rightarrow> [])"

text \<open>The column that \<open>generate_features\<close> assigns for an identifier, and the lambda it applies: the branches of its \<open>if\<close>/\<open>elif\<close> chain, read as two functions of the identifier.\<close>

definition feature_column :: "string \<Rightarrow> string" where
  "feature_column feat_name =
     (if feat_name = ''MonogramComp'' then ''MonogramComp''
      else if feat_name = ''BigramComp'' then ''BigramComp''
      else if feat_name = ''TrigramComp'' then ''TrigramComp''
      else if feat_name = ''MonogramOccur'' then ''MonogramOccur''
      else ''BigramOccur'')"

definition feature_cell :: "'f float_ops \<Rightarrow> string \<Rightarrow> 'f pyval \<Rightarrow> py_error + 'f pyval" where
  "feature_cell ops feat_name =
     (if feat_name = ''MonogramComp'' then composition_cell ops 1
      else if feat_name = ''BigramComp'' then composition_cell ops 2
      else if feat_name = ''TrigramComp'' then composition_cell ops 3
      else if feat_name = ''MonogramOccur'' then occurences_cell 1
      else occurences_cell 2)"

text \<open>The enumeration for a natural \<open>n\<close>, and the entries of the two kinds of feature vector written out for a string.\<close>

definition kmers :: "nat \<Rightarrow> string list" where
  "kmers n = foldl product_step [[]] (replicate n amino_acids)"

definition composition_items :: "'f float_ops \<Rightarrow> nat \<Rightarrow> string \<Rightarrow> 'f pyval list" where
  "composition_items ops n s =
     map (\<lambda>w. PFloat (round3 ops (truediv ops (str_count s w) (int (length s))))) (kmers n)"

definition occurrence_items :: "nat \<Rightarrow> string \<Rightarrow> 'f pyval list" where
  "occurrence_items n s = map (\<lambda>w. PInt (str_count s w)) (kmers n)"

text \<open>The entries of the vector stored for an identifier.\<close>

definition feature_items :: "'f float_ops \<Rightarrow> string \<Rightarrow> string \<Rightarrow> 'f pyval list" where
  "feature_items ops feat_name s =
     (if feat_name = ''MonogramComp'' then composition_items ops 1 s
      else if feat_name = ''BigramComp'' then composition_items ops 2 s
      else if feat_name = ''TrigramComp'' then composition_items ops 3 s
      else if feat_name = ''MonogramOccur'' then occurrence_items 1 s
      else occurrence_items 2 s)"

text \<open>A row after \<open>generate_features\<close> has processed a list of identifiers.\<close>

definition add_features ::
    "'f float_ops \<Rightarrow> string list \<Rightarrow> (string \<rightharpoonup> 'f pyval) \<Rightarrow> (string \<rightharpoonup> 'f pyval)" where
  "add_features ops features row =
     fold (\<lambda>n r. r(feature_column n \<mapsto> PList (feature_items ops n (seq_of row)))) features row"

section \<open>Facts about the enumeration\<close>

lemma product_step_Nil: "product_step [] pool = []"
  by (simp add: product_step_def)

lemma product_step_Cons:
  "product_step (x # R) pool = map (\<lambda>y. x @ [y]) pool @ product_step R pool"
  by (simp add: product_step_def)

lemma length_product_step: "length (product_step R pool) = length R * length pool"
  by (induction R) (simp_all add: product_step_Nil product_step_Cons)

lemma set_product_step:
  "set (product_step R pool) = {x @ [y] | x y. x \<in> set R \<and> y \<in> set pool}"
  by (auto simp add: product_step_def)

lemma nth_product_step:
  "i < length R \<Longrightarrow> j < length pool \<Longrightarrow>
     product_step R pool ! (i * length pool + j) = R ! i @ [pool ! j]"
proof (induction R arbitrary: i)
  case Nil
  then show ?case by simp
next
  case (Cons x R)
  show ?case
  proof (cases i)
    case 0
    with Cons.prems show ?thesis by (simp add: product_step_Cons nth_append)
  next
    case (Suc i')
    with Cons.prems have "i' < length R" by simp
    from Cons.IH [OF this Cons.prems(2)] Suc Cons.prems(2) show ?thesis
      by (simp add: product_step_Cons nth_append)
  qed
qed

lemma distinct_product_step:
  "distinct R \<Longrightarrow> distinct pool \<Longrightarrow> distinct (product_step R pool)"
proof (induction R)
  case Nil
  then show ?case by (simp add: product_step_Nil)
next
  case (Cons x R)
  have "distinct (map (\<lambda>y. x @ [y]) pool)"
    using Cons.prems(2) by (simp add: distinct_map inj_on_def)
  moreover have "set (map (\<lambda>y. x @ [y]) pool) \<inter> set (product_step R pool) = {}"
    using Cons.prems(1) by (auto simp add: set_product_step)
  ultimately show ?case using Cons by (simp add: product_step_Cons)
qed

lemma product_power_Suc:
  "foldl product_step [[]] (replicate (Suc n) pool) =
     product_step (foldl product_step [[]] (replicate n pool)) pool"
proof -
  have "replicate (Suc n) pool = replicate n pool @ [pool]"
    by (simp add: replicate_append_same)
  then show ?thesis by (simp only: foldl_append foldl.simps)
qed

lemma map_concat_product_step:
  "map concat (product_step R (str_iter s)) = product_step (map concat R) s"
  by (induction R) (simp_all add: product_step_Nil product_step_Cons str_iter_def comp_def)

lemma map_concat_product_power:
  "map concat (foldl product_step [[]] (replicate n (str_iter s))) =
     foldl product_step [[]] (replicate n s)"
proof (induction n)
  case 0
  show ?case by simp
next
  case (Suc n)
  then show ?case by (simp only: product_power_Suc map_concat_product_step)
qed

lemma length_product_power:
  "length (foldl product_step [[]] (replicate n pool)) = length pool ^ n"
proof (induction n)
  case 0
  show ?case by simp
next
  case (Suc n)
  then show ?case by (simp only: product_power_Suc length_product_step) simp
qed

lemma set_product_power:
  "set (foldl product_step [[]] (replicate n pool)) = {w. length w = n \<and> set w \<subseteq> set pool}"
proof (induction n)
  case 0
  show ?case by auto
next
  case (Suc n)
  have "{x @ [y] | x y. (length x = n \<and> set x \<subseteq> set pool) \<and> y \<in> set pool} =
        {w. length w = Suc n \<and> set w \<subseteq> set pool}" (is "?L = ?R")
  proof
    show "?L \<subseteq> ?R" by auto
    show "?R \<subseteq> ?L"
    proof
      fix w assume "w \<in> ?R"
      then have w: "length w = Suc n" "set w \<subseteq> set pool" by auto
      then have "w \<noteq> []" by auto
      then have "w = butlast w @ [last w]" by simp
      moreover have "length (butlast w) = n" using w by simp
      moreover have "set (butlast w) \<subseteq> set pool" using w by (meson in_set_butlastD subsetD subsetI)
      moreover have "last w \<in> set pool" using w \<open>w \<noteq> []\<close> by (meson last_in_set subsetD)
      ultimately show "w \<in> ?L" by blast
    qed
  qed
  with Suc show ?case by (simp only: product_power_Suc set_product_step mem_Collect_eq)
qed

lemma distinct_product_power:
  "distinct pool \<Longrightarrow> distinct (foldl product_step [[]] (replicate n pool))"
proof (induction n)
  case 0
  show ?case by simp
next
  case (Suc n)
  then show ?case by (simp only: product_power_Suc distinct_product_step)
qed

lemma ngrams_nonneg:
  "0 \<le> n \<Longrightarrow> n \<le> ssize_max \<Longrightarrow>
     ngrams n = Inr (foldl product_step [[]] (replicate (nat n) amino_acids))"
  by (simp add: ngrams_def product_repeat_def map_concat_product_power ssize_max_def)

lemma ngrams_neg: "- ssize_max - 1 \<le> n \<Longrightarrow> n < 0 \<Longrightarrow> ngrams n = Inl ValueError"
  by (simp add: ngrams_def product_repeat_def ssize_max_def)

lemma ngrams_overflow:
  "n < - ssize_max - 1 \<or> ssize_max < n \<Longrightarrow> ngrams n = Inl OverflowError"
  by (auto simp add: ngrams_def product_repeat_def)

lemma small_ssize: "k \<in> {0, 1, 2, 3} \<Longrightarrow> k \<le> ssize_max"
  by (auto simp add: ssize_max_def)


lemma sorted_product_step:
  assumes "sorted_wrt (\<lambda>a b. (a, b) \<in> lexord r) R"
    and "\<forall>x \<in> set R. length x = n"
    and "sorted_wrt (\<lambda>a b. (a, b) \<in> r) pool"
  shows "sorted_wrt (\<lambda>a b. (a, b) \<in> lexord r) (product_step R pool)"
  using assms(1,2)
proof (induction R)
  case Nil
  show ?case by (simp add: product_step_Nil)
next
  case (Cons x R)
  have inner: "sorted_wrt (\<lambda>a b. (a, b) \<in> lexord r) (map (\<lambda>y. x @ [y]) pool)"
  proof -
    have "sorted_wrt (\<lambda>a b. (x @ [a], x @ [b]) \<in> lexord r) pool"
      by (rule sorted_wrt_mono_rel [OF _ assms(3)]) (simp add: lexord_append_leftI)
    then show ?thesis by (simp add: sorted_wrt_map)
  qed
  have cross: "(x @ [y], w) \<in> lexord r" if "w \<in> set (product_step R pool)" for y w
  proof -
    from that obtain x' y' where w: "w = x' @ [y']" and x': "x' \<in> set R"
      by (auto simp add: set_product_step)
    from Cons.prems x' have "(x, x') \<in> lexord r" "length x' = length x" by auto
    then show ?thesis unfolding w by (simp add: lexord_sufI)
  qed
  from Cons have "sorted_wrt (\<lambda>a b. (a, b) \<in> lexord r) (product_step R pool)" by simp
  with inner cross show ?case
    by (auto simp add: product_step_Cons sorted_wrt_append)
qed

lemma sorted_product_power:
  assumes "sorted_wrt (\<lambda>a b. (a, b) \<in> r) pool"
  shows "sorted_wrt (\<lambda>a b. (a, b) \<in> lexord r) (foldl product_step [[]] (replicate n pool))"
proof (induction n)
  case 0
  show ?case by simp
next
  case (Suc n)
  have "\<forall>x \<in> set (foldl product_step [[]] (replicate n pool)). length x = n"
    by (simp add: set_product_power)
  from sorted_product_step [OF Suc this assms] show ?case
    by (simp only: product_power_Suc)
qed

lemma amino_acids_sorted: "sorted_wrt (\<lambda>a b. (a, b) \<in> char_order) amino_acids"
  by (simp add: amino_acids_def char_order_def)

lemma amino_acids_distinct: "distinct amino_acids"
  by (simp add: amino_acids_def)

lemma amino_acids_length: "length amino_acids = 20"
  by (simp add: amino_acids_def)

subsection \<open>Facts about the substring count\<close>








section \<open>The extractors on strings\<close>

lemma map_err_Inr: "map_err (\<lambda>x. Inr (g x)) xs = Inr (map g xs)"
  by (induction xs) simp_all

lemma py_count_str: "py_count (PStr S) = (\<lambda>sub. Inr (str_count S sub))"
  by (rule ext) (simp add: py_count_def)

lemma occurences_str:
  "0 \<le> k \<Longrightarrow> k \<le> ssize_max \<Longrightarrow> generate_ngram_occurences (PStr S) k =
     Inr (map (str_count S) (foldl product_step [[]] (replicate (nat k) amino_acids)))"
  by (simp add: generate_ngram_occurences_def ngrams_nonneg py_count_str map_err_Inr)

lemma composition_str:
  "0 \<le> k \<Longrightarrow> k \<le> ssize_max \<Longrightarrow> S \<noteq> [] \<Longrightarrow>
     generate_ngram_composition ops (PStr S) k =
     Inr (map (\<lambda>ngram. round3 ops (truediv ops (str_count S ngram) (int (length S))))
            (foldl product_step [[]] (replicate (nat k) amino_acids)))"
  by (simp add: generate_ngram_composition_def ngrams_nonneg py_count_def py_len_def
      py_truediv_def map_err_Inr)


lemma kmers_pos_nonempty: "foldl product_step [[]] (replicate n pool) \<noteq> [] \<or> pool = []"
proof -
  have "length (foldl product_step [[]] (replicate n pool)) = length pool ^ n"
    by (rule length_product_power)
  then show ?thesis by (cases "pool = []") auto
qed

section \<open>Facts about the feature assembly\<close>

lemma map_err_map_Inr:
  "(\<And>x. x \<in> set xs \<Longrightarrow> f (h x) = Inr (g x)) \<Longrightarrow> map_err f (map h xs) = Inr (map g xs)"
  by (induction xs) simp_all

lemma map_err_first_fails:
  "xs \<noteq> [] \<Longrightarrow> (\<And>x. x \<in> set xs \<Longrightarrow> f x = Inl e) \<Longrightarrow> map_err f xs = Inl e"
  by (cases xs) simp_all

lemma zip_update:
  "map (\<lambda>(row, v). row(c \<mapsto> v)) (zip rs (map h rs)) = map (\<lambda>row. row(c \<mapsto> h row)) rs"
  by (induction rs) simp_all

lemma composition_cell_str:
  "0 \<le> k \<Longrightarrow> k \<le> ssize_max \<Longrightarrow> s \<noteq> [] \<Longrightarrow>
     composition_cell ops k (PStr s) = Inr (PList (composition_items ops (nat k) s))"
  by (simp add: composition_cell_def composition_str composition_items_def kmers_def comp_def)

lemma occurences_cell_str:
  "0 \<le> k \<Longrightarrow> k \<le> ssize_max \<Longrightarrow>
     occurences_cell k (PStr s) = Inr (PList (occurrence_items (nat k) s))"
  by (simp add: occurences_cell_def occurences_str occurrence_items_def kmers_def comp_def)

lemma feature_cell_str:
  "s \<noteq> [] \<Longrightarrow> feature_cell ops n (PStr s) = Inr (PList (feature_items ops n s))"
  by (simp add: feature_cell_def feature_items_def composition_cell_str occurences_cell_str
      ssize_max_def)

lemma feature_items_column: "feature_items ops (feature_column n) s = feature_items ops n s"
  by (simp add: feature_items_def feature_column_def)

lemma feature_column_not_sequence: "feature_column n \<noteq> ''Sequence''"
  by (simp add: feature_column_def)

lemma generate_features_step:
  "generate_features ops df (n # rest) =
     (case assign_feature df (feature_column n) (feature_cell ops n) of
        Inl e \<Rightarrow> Inl e
      | Inr df' \<Rightarrow> generate_features ops df' rest)"
  by (simp add: feature_column_def feature_cell_def)

lemma get_sequence_column:
  assumes "''Sequence'' \<in> set (col_names df)"
    and "\<forall>row \<in> set (rows df). \<exists>s. row ''Sequence'' = Some (PStr s)"
  shows "get_column df ''Sequence'' = Inr (map (\<lambda>row. PStr (seq_of row)) (rows df))"
proof -
  have "map_err (\<lambda>row. case row ''Sequence'' of None \<Rightarrow> Inl (KeyError ''Sequence'')
                        | Some v \<Rightarrow> Inr v) (map (\<lambda>row. row) (rows df)) =
        Inr (map (\<lambda>row. PStr (seq_of row)) (rows df))"
  proof (rule map_err_map_Inr)
    fix row assume "row \<in> set (rows df)"
    with assms(2) obtain s where "row ''Sequence'' = Some (PStr s)" by blast
    then show "(case row ''Sequence'' of None \<Rightarrow> Inl (KeyError ''Sequence'') | Some v \<Rightarrow> Inr v)
                 = Inr (PStr (seq_of row))"
      by (simp add: seq_of_def)
  qed
  with assms(1) show ?thesis by (simp add: get_column_def)
qed

lemma assign_feature_ok:
  assumes "''Sequence'' \<in> set (col_names df)"
    and "\<forall>row \<in> set (rows df). \<exists>s. row ''Sequence'' = Some (PStr s) \<and> s \<noteq> []"
  shows "assign_feature df (feature_column n) (feature_cell ops n) =
           Inr \<lparr> col_names = (if feature_column n \<in> set (col_names df) then col_names df
                               else col_names df @ [feature_column n]),
                 rows = map (\<lambda>row. row(feature_column n \<mapsto> PList (feature_items ops n (seq_of row))))
                          (rows df) \<rparr>"
proof -
  from assms(2) have seq: "\<forall>row \<in> set (rows df). \<exists>s. row ''Sequence'' = Some (PStr s)"
    by blast
  have col: "get_column df ''Sequence'' = Inr (map (\<lambda>row. PStr (seq_of row)) (rows df))"
    by (rule get_sequence_column [OF assms(1) seq])
  have vals: "map_err (feature_cell ops n) (map (\<lambda>row. PStr (seq_of row)) (rows df)) =
              Inr (map (\<lambda>row. PList (feature_items ops n (seq_of row))) (rows df))"
  proof (rule map_err_map_Inr)
    fix row assume "row \<in> set (rows df)"
    with assms(2) obtain s where "row ''Sequence'' = Some (PStr s)" "s \<noteq> []" by blast
    then have "seq_of row \<noteq> []" by (simp add: seq_of_def)
    then show "feature_cell ops n (PStr (seq_of row)) =
                 Inr (PList (feature_items ops n (seq_of row)))"
      by (rule feature_cell_str)
  qed
  show ?thesis
    by (simp add: assign_feature_def col vals set_column_def zip_update)
qed

lemma fold_update_lookup:
  "fold (\<lambda>n r. r(fc n \<mapsto> H (fc n))) names r c =
     (if c \<in> fc ` set names then Some (H c) else r c)"
  by (induction names arbitrary: r) auto

lemma add_features_lookup:
  "add_features ops features row c =
     (if c \<in> feature_column ` set features
      then Some (PList (feature_items ops c (seq_of row))) else row c)"
proof -
  have "add_features ops features row =
        fold (\<lambda>n r. r(feature_column n \<mapsto> PList (feature_items ops (feature_column n) (seq_of row))))
          features row"
    by (simp only: add_features_def feature_items_column)
  then show ?thesis
    by (simp only: fold_update_lookup
        [of feature_column "\<lambda>c. PList (feature_items ops c (seq_of row))"])
qed

lemma add_features_Cons:
  "add_features ops (n # rest) row =
     add_features ops rest (row(feature_column n \<mapsto> PList (feature_items ops n (seq_of row))))"
proof -
  have "seq_of (row(feature_column n \<mapsto> v)) = seq_of row" for v :: "'a pyval"
    using feature_column_not_sequence [of n] by (auto simp add: seq_of_def)
  then show ?thesis by (simp add: add_features_def)
qed

lemma generate_features_ok:
  assumes "''Sequence'' \<in> set (col_names df)"
    and "\<forall>row \<in> set (rows df). \<exists>s. row ''Sequence'' = Some (PStr s) \<and> s \<noteq> []"
  shows "\<exists>cols. generate_features ops df features =
                  Inr \<lparr> col_names = cols, rows = map (add_features ops features) (rows df) \<rparr>
               \<and> set (col_names df) \<subseteq> set cols"
  using assms
proof (induction features arbitrary: df)
  case Nil
  have "add_features ops [] = (\<lambda>row. row)" by (rule ext) (simp add: add_features_def)
  then show ?case by (intro exI [of _ "col_names df"]) simp
next
  case (Cons n rest)
  let ?df1 = "\<lparr> col_names = (if feature_column n \<in> set (col_names df) then col_names df
                               else col_names df @ [feature_column n]),
                 rows = map (\<lambda>row. row(feature_column n \<mapsto> PList (feature_items ops n (seq_of row))))
                          (rows df) \<rparr>"
  have a: "assign_feature df (feature_column n) (feature_cell ops n) = Inr ?df1"
    by (rule assign_feature_ok [OF Cons.prems])
  have c1: "''Sequence'' \<in> set (col_names ?df1)" using Cons.prems(1) by simp
  have r1: "\<forall>row \<in> set (rows ?df1). \<exists>s. row ''Sequence'' = Some (PStr s) \<and> s \<noteq> []"
    using Cons.prems(2) feature_column_not_sequence [of n] by auto
  from Cons.IH [OF c1 r1] obtain cols where
    g: "generate_features ops ?df1 rest =
          Inr \<lparr> col_names = cols, rows = map (add_features ops rest) (rows ?df1) \<rparr>"
    and sub: "set (col_names ?df1) \<subseteq> set cols" by blast
  have rws: "map (add_features ops rest) (rows ?df1) = map (add_features ops (n # rest)) (rows df)"
    by (simp add: add_features_Cons comp_def)
  have "set (col_names df) \<subseteq> set cols" using sub by auto
  with g rws a show ?case by (simp only: generate_features_step) simp
qed

lemma concatenate_loop_ok:
  assumes "\<forall>c \<in> set cols. row c = Some (PList (items c))"
  shows "concatenate_loop row acc cols = Inr (acc @ concat (map items cols))"
  using assms by (induction cols arbitrary: acc) (simp_all add: list_iadd_def)

lemma concatenate_loop_missing:
  "row c = None \<Longrightarrow> concatenate_loop row acc (c # cols) = Inl (KeyError c)"
  by simp

lemma zip_map_update:
  "map (\<lambda>(row, v). row(c \<mapsto> v)) (zip (map a rs) (map h rs)) = map (\<lambda>r. (a r)(c \<mapsto> h r)) rs"
  by (induction rs) simp_all

lemma feature_column_cases:
  "feature_column n \<in> {''MonogramComp'', ''BigramComp'', ''TrigramComp'', ''MonogramOccur'',
                        ''BigramOccur''}"
  by (simp add: feature_column_def)

lemma feature_column_recognized:
  "n \<in> {''MonogramComp'', ''BigramComp'', ''TrigramComp'', ''MonogramOccur'', ''BigramOccur''}
     \<Longrightarrow> feature_column n = n"
  by (auto simp add: feature_column_def)

lemma add_features_other:
  assumes "c \<notin> {''MonogramComp'', ''BigramComp'', ''TrigramComp'', ''MonogramOccur'',
                  ''BigramOccur''}"
  shows "add_features ops features row c = row c"
proof -
  have "c \<notin> feature_column ` set features"
  proof
    assume "c \<in> feature_column ` set features"
    then obtain n where c: "c = feature_column n" by (rule imageE)
    have "feature_column n \<in> {''MonogramComp'', ''BigramComp'', ''TrigramComp'',
                                ''MonogramOccur'', ''BigramOccur''}"
      by (rule feature_column_cases)
    then have "c \<in> {''MonogramComp'', ''BigramComp'', ''TrigramComp'',
                      ''MonogramOccur'', ''BigramOccur''}"
      by (simp only: c)
    with assms show False by (rule notE)
  qed
  then show ?thesis by (simp only: add_features_lookup if_False)
qed

lemma get_column_after:
  assumes "c \<in> set cols"
    and "\<And>row. row \<in> set rs \<Longrightarrow> F row c = Some (g row)"
  shows "get_column \<lparr> col_names = cols, rows = map F rs \<rparr> c = Inr (map g rs)"
proof -
  have "map_err (\<lambda>row. case row c of None \<Rightarrow> Inl (KeyError c) | Some v \<Rightarrow> Inr v) (map F rs) =
        Inr (map g rs)"
    by (rule map_err_map_Inr) (simp add: assms(2))
  with assms(1) show ?thesis by (simp add: get_column_def)
qed

lemma length_feature_items:
  "length (feature_items ops c s) = length (feature_items ops c s')"
  by (simp add: feature_items_def composition_items_def occurrence_items_def)

lemma process_features_recognized:
  assumes seqc: "''Sequence'' \<in> set (col_names df)"
    and seqr: "\<forall>row \<in> set (rows df). \<exists>s. row ''Sequence'' = Some (PStr s) \<and> s \<noteq> []"
    and labc: "''Label'' \<in> set (col_names df)"
    and labr: "\<forall>row \<in> set (rows df). \<exists>l. row ''Label'' = Some l"
    and rec: "set features \<subseteq> {''MonogramComp'', ''BigramComp'', ''TrigramComp'',
                               ''MonogramOccur'', ''BigramOccur''}"
    and recs: "rows df \<noteq> []"
  shows "process_features ops df features =
           Inr (map (\<lambda>row. concat (map (\<lambda>c. feature_items ops c (seq_of row)) features)) (rows df),
                map (\<lambda>row. the (row ''Label'')) (rows df),
                map (\<lambda>row. PStr (seq_of row)) (rows df))"
proof -
  let ?A = "add_features ops features"
  let ?X = "\<lambda>row. concat (map (\<lambda>c. feature_items ops c (seq_of row)) features)"
  let ?F = "\<lambda>row. (?A row)(''Features'' \<mapsto> PList (?X row))"
  from generate_features_ok [OF seqc seqr, of ops features] obtain cols where
    g: "generate_features ops df features = Inr \<lparr> col_names = cols, rows = map ?A (rows df) \<rparr>"
    and sub: "set (col_names df) \<subseteq> set cols" by blast
  have x: "map_err (\<lambda>row. concatenate_columns row features) (map ?A (rows df)) =
           Inr (map ?X (rows df))"
  proof (rule map_err_map_Inr)
    fix row assume "row \<in> set (rows df)"
    have "\<forall>c \<in> set features. ?A row c = Some (PList (feature_items ops c (seq_of row)))"
    proof
      fix c assume c: "c \<in> set features"
      from rec c have "c \<in> {''MonogramComp'', ''BigramComp'', ''TrigramComp'',
                               ''MonogramOccur'', ''BigramOccur''}" by (rule subsetD)
      then have "feature_column c = c" by (rule feature_column_recognized)
      then have "c = feature_column c" by (rule sym)
      from this c have "c \<in> feature_column ` set features" by (rule image_eqI)
      then show "?A row c = Some (PList (feature_items ops c (seq_of row)))"
        by (simp only: add_features_lookup if_True)
    qed
    from concatenate_loop_ok [of features "?A row" "\<lambda>c. feature_items ops c (seq_of row)" "[]", OF this]
    show "concatenate_columns (?A row) features = Inr (?X row)"
      by (simp add: concatenate_columns_def)
  qed
  let ?cols2 = "if ''Features'' \<in> set cols then cols else cols @ [''Features'']"
  have df2: "set_column \<lparr> col_names = cols, rows = map ?A (rows df) \<rparr> ''Features''
               (map PList (map ?X (rows df))) =
             \<lparr> col_names = ?cols2, rows = map ?F (rows df) \<rparr>"
    by (simp add: set_column_def zip_map_update [symmetric] comp_def)
  have lab: "get_column \<lparr> col_names = ?cols2, rows = map ?F (rows df) \<rparr> ''Label'' =
             Inr (map (\<lambda>row. the (row ''Label'')) (rows df))"
  proof (rule get_column_after)
    show "''Label'' \<in> set ?cols2" using labc sub by auto
    fix row assume "row \<in> set (rows df)"
    with labr obtain l where "row ''Label'' = Some l" by blast
    moreover have "?A row ''Label'' = row ''Label''" by (rule add_features_other) simp
    ultimately show "?F row ''Label'' = Some (the (row ''Label''))" by simp
  qed
  have sq: "get_column \<lparr> col_names = ?cols2, rows = map ?F (rows df) \<rparr> ''Sequence'' =
             Inr (map (\<lambda>row. PStr (seq_of row)) (rows df))"
  proof (rule get_column_after)
    show "''Sequence'' \<in> set ?cols2" using seqc sub by auto
    fix row assume "row \<in> set (rows df)"
    with seqr obtain s where "row ''Sequence'' = Some (PStr s)" by blast
    moreover have "?A row ''Sequence'' = row ''Sequence''" by (rule add_features_other) simp
    ultimately show "?F row ''Sequence'' = Some (PStr (seq_of row))" by (simp add: seq_of_def)
  qed
  have ar: "apply_rows \<lparr> col_names = cols, rows = map ?A (rows df) \<rparr> features =
            Inr (map ?X (rows df))"
    using recs x by (simp add: apply_rows_def)
  have "length (?X row) = length (?X row')" for row row' :: "string \<rightharpoonup> 'a pyval"
    by (induction features) (simp_all add: length_feature_items)
  then have na: "np_array (map ?X (rows df)) = Inr (map ?X (rows df))"
    by (auto simp add: np_array_def)
  show ?thesis
    by (simp only: process_features_def g sum.case frame.select_convs ar Let_def df2 lab sq na)
qed

lemma length_kmers: "length (kmers n) = 20 ^ n"
  by (simp add: kmers_def length_product_power amino_acids_length)

lemma composition_items_eq:
  "0 \<le> k \<Longrightarrow> k \<le> ssize_max \<Longrightarrow> s \<noteq> [] \<Longrightarrow>
     \<exists>v. generate_ngram_composition ops (PStr s) k = Inr v
        \<and> composition_items ops (nat k) s = map PFloat v \<and> length v = 20 ^ nat k"
  by (simp add: composition_str composition_items_def kmers_def comp_def
      length_product_power amino_acids_length)

lemma occurrence_items_eq:
  "0 \<le> k \<Longrightarrow> k \<le> ssize_max \<Longrightarrow>
     \<exists>v. generate_ngram_occurences (PStr s) k = Inr v
        \<and> occurrence_items (nat k) s = map PInt v \<and> length v = 20 ^ nat k"
  by (simp add: occurences_str occurrence_items_def kmers_def comp_def
      length_product_power amino_acids_length)

section \<open>Facts about the confusion matrix\<close>

lemma confusion_matrix_nonneg:
  assumes "confusion_matrix y_true y_pred = Inr cm"
  shows "\<forall>row \<in> set cm. \<forall>x \<in> set row. 0 \<le> x"
  using assms by (auto simp add: confusion_matrix_def Let_def split: if_splits)

lemma cm_cells_nonneg:
  assumes nn: "\<forall>row \<in> set cm. \<forall>x \<in> set row. (0::int) \<le> x"
    and rv: "cm_iadd_ravel cm = Inr (TN, FP, FN, TP)"
  shows "0 \<le> TN \<and> 0 \<le> FP \<and> 0 \<le> FN \<and> 0 \<le> TP"
proof -
  have cell: "0 \<le> cm ! i ! j" if "i < length cm" "j < length (cm ! i)" for i j
  proof -
    from that(1) have "cm ! i \<in> set cm" by (rule nth_mem)
    moreover from that(2) have "cm ! i ! j \<in> set (cm ! i)" by (rule nth_mem)
    ultimately show ?thesis using nn by blast
  qed
  show ?thesis
  proof (cases "map length cm = [1]")
    case True
    then have "length cm = 1" "length (cm ! 0) = 1"
      by (auto simp add: map_eq_Cons_conv)
    then have "0 \<le> cm ! 0 ! 0" by (intro cell) simp_all
    with rv True show ?thesis by (simp add: cm_iadd_ravel_def)
  next
    case False
    with rv have s: "map length cm = [2, 2]"
      by (simp add: cm_iadd_ravel_def split: if_splits)
    then have "length cm = 2" "length (cm ! 0) = 2" "length (cm ! 1) = 2"
      by (auto simp add: map_eq_Cons_conv)
    then have "0 \<le> cm ! 0 ! 0" "0 \<le> cm ! 0 ! 1" "0 \<le> cm ! 1 ! 0" "0 \<le> cm ! 1 ! 1"
      by (auto intro!: cell)
    with rv False s show ?thesis by (simp add: cm_iadd_ravel_def)
  qed
qed

section \<open>Claims\<close>







text \<open>
  C5, as the specification states it: every \<open>k < 1\<close> fails. For \<open>k = 0\<close> the product
  holds the empty tuple alone, the only n-gram is the empty string, and both extractors
  return a list of one element (\<open>str.count\<close> of the empty string is \<open>len + 1\<close>).
\<close>

theorem nonpositive_k_counterexample:
  "ngrams 0 = Inr ['''']
   \<and> generate_ngram_occurences (PStr ''AC'' :: sym_float pyval) 0 = Inr [3]
   \<and> generate_ngram_composition sym_ops (PStr ''AC'') 0 = Inr [Round3 (Quot 3 2)]"
  by (simp add: ngrams_def product_repeat_def generate_ngram_occurences_def
      generate_ngram_composition_def py_count_def py_len_def py_truediv_def str_count_def
      sym_ops_def ssize_max_def)

text \<open>
  C5, amended: for every \<open>k < 0\<close> the enumeration fails, and so do both extractors on
  every input: with \<open>ValueError\<close> for \<open>-ssize_max - 1 \<le> k < 0\<close> and with
  \<open>OverflowError\<close> below that range (both raised by \<open>itertools.product\<close>). For \<open>k = 0\<close>
  the enumeration returns the empty string alone; the occurrence extractor returns
  \<open>[len(S) + 1]\<close>; the composition extractor returns \<open>[round((len(S) + 1) / len(S), 3)]\<close>
  for a non-empty \<open>S\<close> and raises \<open>ZeroDivisionError\<close> for the empty \<open>S\<close>.
\<close>

theorem negative_k_fails_zero_k_returns:
  "(k < - ssize_max - 1 \<longrightarrow> ngrams k = Inl OverflowError
        \<and> generate_ngram_occurences seq k = Inl OverflowError
        \<and> generate_ngram_composition ops seq k = Inl OverflowError)
   \<and> (- ssize_max - 1 \<le> k \<and> k < 0 \<longrightarrow> ngrams k = Inl ValueError
        \<and> generate_ngram_occurences seq k = Inl ValueError
        \<and> generate_ngram_composition ops seq k = Inl ValueError)
   \<and> ngrams 0 = Inr ['''']
   \<and> generate_ngram_occurences (PStr S) 0 = Inr [int (length S) + 1]
   \<and> (S \<noteq> [] \<longrightarrow> generate_ngram_composition ops (PStr S) 0 =
          Inr [round3 ops (truediv ops (int (length S) + 1) (int (length S)))])
   \<and> generate_ngram_composition ops (PStr []) 0 = Inl ZeroDivisionError"
proof (intro conjI impI)
  assume "k < - ssize_max - 1"
  then have ng: "ngrams k = Inl OverflowError" by (simp add: ngrams_overflow)
  show "ngrams k = Inl OverflowError" by (rule ng)
  show "generate_ngram_occurences seq k = Inl OverflowError"
    by (simp add: generate_ngram_occurences_def ng)
  show "generate_ngram_composition ops seq k = Inl OverflowError"
    by (simp add: generate_ngram_composition_def ng)
next
  assume "- ssize_max - 1 \<le> k \<and> k < 0"
  then have ng: "ngrams k = Inl ValueError" by (simp add: ngrams_neg)
  show "ngrams k = Inl ValueError" by (rule ng)
  show "generate_ngram_occurences seq k = Inl ValueError"
    by (simp add: generate_ngram_occurences_def ng)
  show "generate_ngram_composition ops seq k = Inl ValueError"
    by (simp add: generate_ngram_composition_def ng)
next
  have z: "ngrams 0 = Inr ['''']"
    by (simp add: ngrams_def product_repeat_def ssize_max_def)
  show "ngrams 0 = Inr ['''']" by (rule z)
  show "generate_ngram_occurences (PStr S) 0 = Inr [int (length S) + 1]"
    by (simp add: generate_ngram_occurences_def z py_count_def str_count_def)
  show "generate_ngram_composition ops (PStr S) 0 =
          Inr [round3 ops (truediv ops (int (length S) + 1) (int (length S)))]" if "S \<noteq> []"
    using that
    by (simp add: generate_ngram_composition_def z py_count_def py_len_def py_truediv_def
        str_count_def)
  show "generate_ngram_composition ops (PStr []) 0 = Inl ZeroDivisionError"
    by (simp add: generate_ngram_composition_def z py_count_def py_len_def py_truediv_def
        str_count_def)
qed

theorem negative_k_fails_zero_k_returns_witness:
  "ngrams (- 9223372036854775809) = Inl OverflowError
   \<and> generate_ngram_occurences (PStr ''AC'' :: sym_float pyval) (- 9223372036854775809) =
       Inl OverflowError
   \<and> generate_ngram_composition sym_ops (PStr ''AC'') (- 9223372036854775809) =
       Inl OverflowError
   \<and> ngrams (- 1) = Inl ValueError
   \<and> generate_ngram_occurences (PStr ''AC'' :: sym_float pyval) (- 1) = Inl ValueError
   \<and> generate_ngram_composition sym_ops (PStr ''AC'') (- 1) = Inl ValueError
   \<and> generate_ngram_composition sym_ops (PStr ''AC'') 0 =
       Inr [round3 sym_ops (truediv sym_ops (int (length ''AC'') + 1) (int (length ''AC'')))]"
proof -
  have low: "(- 9223372036854775809 :: int) < - ssize_max - 1"
    by (simp add: ssize_max_def)
  have neg: "- ssize_max - 1 \<le> (- 1 :: int) \<and> (- 1 :: int) < 0"
    by (simp add: ssize_max_def)
  have ne: "''AC'' \<noteq> []" by simp
  from negative_k_fails_zero_k_returns [of "- 9223372036854775809" "PStr ''AC''" sym_ops "''AC''"]
    negative_k_fails_zero_k_returns [of "- 1" "PStr ''AC''" sym_ops "''AC''"] low neg ne
  show ?thesis by blast
qed

text \<open>
  C6. For the empty sequence and every \<open>k\<close> in \<open>{1, 2, 3}\<close>,
  \<open>generate_ngram_composition\<close> raises \<open>ZeroDivisionError\<close>; it returns no list, and so
  no NaN.
\<close>

theorem composition_empty_sequence_fails:
  assumes "k \<in> {1, 2, 3}"
  shows "generate_ngram_composition ops (PStr []) k = Inl ZeroDivisionError"
proof -
  let ?ngs = "foldl product_step [[]] (replicate (nat k) amino_acids)"
  from assms have k: "0 \<le> k" "k \<le> ssize_max" by (auto simp add: ssize_max_def)
  have "?ngs \<noteq> []" using kmers_pos_nonempty [of "nat k" amino_acids]
    by (simp add: amino_acids_def)
  then obtain w ws where "?ngs = w # ws" by (cases ?ngs) auto
  then show ?thesis using k
    by (simp add: generate_ngram_composition_def ngrams_nonneg py_count_def py_len_def
        py_truediv_def)
qed

theorem composition_empty_sequence_fails_witness:
  "(2 :: int) \<in> {1, 2, 3}
   \<and> generate_ngram_composition sym_ops (PStr []) 2 = Inl ZeroDivisionError"
  using composition_empty_sequence_fails [of 2 sym_ops] by simp

text \<open>
  C2. For every non-empty sequence \<open>S\<close> and every \<open>k\<close> in \<open>{1, 2, 3}\<close>, both
  extractors return lists of \<open>20 ^ k\<close> entries; every occurrence entry is a non-negative
  integer, and the composition entry at each index is the occurrence entry at that index
  divided by \<open>len(S)\<close> and rounded to 3 decimals.
\<close>

theorem composition_is_rounded_occurrence_ratio:
  assumes "S \<noteq> []" and "k \<in> {1, 2, 3}"
  shows "\<exists>occ comp. generate_ngram_occurences (PStr S) k = Inr occ
           \<and> generate_ngram_composition ops (PStr S) k = Inr comp
           \<and> length occ = 20 ^ nat k \<and> length comp = 20 ^ nat k
           \<and> (\<forall>i < 20 ^ nat k.
                 0 \<le> occ ! i
               \<and> comp ! i = round3 ops (truediv ops (occ ! i) (int (length S))))"
proof -
  let ?ngs = "foldl product_step [[]] (replicate (nat k) amino_acids)"
  let ?occ = "map (str_count S) ?ngs"
  let ?comp = "map (\<lambda>ngram. round3 ops (truediv ops (str_count S ngram) (int (length S)))) ?ngs"
  from assms have k: "0 \<le> k" "k \<le> ssize_max" by (auto simp add: ssize_max_def)
  have len: "length ?ngs = 20 ^ nat k"
    by (simp add: length_product_power amino_acids_length)
  have occ: "generate_ngram_occurences (PStr S) k = Inr ?occ"
    using k by (simp add: occurences_str)
  have comp: "generate_ngram_composition ops (PStr S) k = Inr ?comp"
    using k assms(1) by (simp add: composition_str)
  have nonneg: "0 \<le> str_count S w" for w
    by (simp add: str_count_def)
  have "0 \<le> ?occ ! i \<and> ?comp ! i = round3 ops (truediv ops (?occ ! i) (int (length S)))"
    if "i < 20 ^ nat k" for i
    using that len nonneg by simp
  with occ comp len show ?thesis
    by (intro exI [of _ ?occ] exI [of _ ?comp]) simp
qed

theorem composition_is_rounded_occurrence_ratio_witness:
  "\<exists>occ comp. generate_ngram_occurences (PStr ''AC'' :: sym_float pyval) 1 = Inr occ
           \<and> generate_ngram_composition sym_ops (PStr ''AC'') 1 = Inr comp
           \<and> length occ = 20 \<and> length comp = 20
           \<and> (\<forall>i < 20. 0 \<le> occ ! i \<and> comp ! i = Round3 (Quot (occ ! i) 2))"
  using composition_is_rounded_occurrence_ratio [of "''AC''" 1 sym_ops]
  by (simp add: sym_ops_def)

text \<open>
  C3. For every \<open>k\<close> in \<open>{1, 2, 3}\<close> the enumeration returns \<open>20 ^ k\<close> strings,
  each \<open>k\<close> symbols long, without duplicates: exactly the strings of length \<open>k\<close> over
  the alphabet, strictly ascending in the lexicographic order. The rightmost position
  varies fastest: entry \<open>i * 20 + j\<close> is entry \<open>i\<close> of the enumeration for \<open>k - 1\<close>
  followed by symbol \<open>j\<close> of the alphabet. The list is a function of \<open>k\<close> alone, and
  both extractors map over this same list.
\<close>

theorem kmer_enumeration_order:
  assumes "k \<in> {1, 2, 3}"
  shows "\<exists>ngs prev. ngrams k = Inr ngs \<and> ngrams (k - 1) = Inr prev
           \<and> length ngs = 20 ^ nat k
           \<and> (\<forall>w \<in> set ngs. length w = nat k)
           \<and> distinct ngs
           \<and> set ngs = {w. length w = nat k \<and> set w \<subseteq> set amino_acids}
           \<and> sorted_wrt (\<lambda>a b. (a, b) \<in> lexord char_order) ngs
           \<and> (\<forall>i < length prev. \<forall>j < 20. ngs ! (i * 20 + j) = prev ! i @ [amino_acids ! j])
           \<and> generate_ngram_occurences seq k = map_err (py_count seq) ngs
           \<and> (\<forall>S. S \<noteq> [] \<longrightarrow>
                 generate_ngram_composition ops (PStr S) k =
                   Inr (map (\<lambda>w. round3 ops (truediv ops (str_count S w) (int (length S)))) ngs))"
proof -
  let ?ngs = "foldl product_step [[]] (replicate (nat k) amino_acids)"
  let ?prev = "foldl product_step [[]] (replicate (nat (k - 1)) amino_acids)"
  from assms have k: "0 \<le> k" "0 \<le> k - 1" and suc: "nat k = Suc (nat (k - 1))" by auto
  from assms have kb: "k \<le> ssize_max" "k - 1 \<le> ssize_max" by (auto simp add: ssize_max_def)
  have ng: "ngrams k = Inr ?ngs" using k kb by (simp add: ngrams_nonneg)
  have pv: "ngrams (k - 1) = Inr ?prev" using k kb by (simp add: ngrams_nonneg)
  have len: "length ?ngs = 20 ^ nat k"
    by (simp add: length_product_power amino_acids_length)
  have st: "set ?ngs = {w. length w = nat k \<and> set w \<subseteq> set amino_acids}"
    by (rule set_product_power)
  then have each: "\<forall>w \<in> set ?ngs. length w = nat k" by simp
  have dist: "distinct ?ngs"
    by (rule distinct_product_power [OF amino_acids_distinct])
  have srt: "sorted_wrt (\<lambda>a b. (a, b) \<in> lexord char_order) ?ngs"
    by (rule sorted_product_power [OF amino_acids_sorted])
  have step: "?ngs = product_step ?prev amino_acids"
    by (simp only: suc product_power_Suc)
  have idx: "?ngs ! (i * 20 + j) = ?prev ! i @ [amino_acids ! j]"
    if "i < length ?prev" "j < 20" for i j
    using nth_product_step [of i ?prev j amino_acids] that
    by (simp only: step amino_acids_length)
  have occ: "generate_ngram_occurences seq k = map_err (py_count seq) ?ngs"
    by (simp add: generate_ngram_occurences_def ng)
  have comp: "generate_ngram_composition ops (PStr S) k =
      Inr (map (\<lambda>w. round3 ops (truediv ops (str_count S w) (int (length S)))) ?ngs)"
    if "S \<noteq> []" for S
    using k(1) kb(1) that by (rule composition_str)
  show ?thesis
    apply (rule exI [of _ ?ngs])
    apply (rule exI [of _ ?prev])
    apply (intro conjI allI impI)
             apply (rule ng)
            apply (rule pv)
           apply (rule len)
          apply (rule each)
         apply (rule dist)
        apply (rule st)
       apply (rule srt)
      apply (rule idx; assumption)
     apply (rule occ)
    apply (rule comp; assumption)
    done
qed

theorem kmer_enumeration_order_witness:
  "(2 :: int) \<in> {1, 2, 3}
   \<and> (\<exists>ngs prev. ngrams 2 = Inr ngs \<and> ngrams (2 - 1) = Inr prev
           \<and> length ngs = 20 ^ nat 2
           \<and> (\<forall>w \<in> set ngs. length w = nat 2)
           \<and> distinct ngs
           \<and> set ngs = {w. length w = nat 2 \<and> set w \<subseteq> set amino_acids}
           \<and> sorted_wrt (\<lambda>a b. (a, b) \<in> lexord char_order) ngs
           \<and> (\<forall>i < length prev. \<forall>j < 20. ngs ! (i * 20 + j) = prev ! i @ [amino_acids ! j])
           \<and> generate_ngram_occurences (PStr ''AC'' :: sym_float pyval) 2 =
               map_err (py_count (PStr ''AC'' :: sym_float pyval)) ngs
           \<and> (\<forall>S. S \<noteq> [] \<longrightarrow>
                 generate_ngram_composition sym_ops (PStr S) 2 =
                   Inr (map (\<lambda>w. round3 sym_ops (truediv sym_ops (str_count S w) (int (length S)))) ngs)))"
proof -
  have h: "(2 :: int) \<in> {1, 2, 3}" by simp
  show ?thesis
    by (rule conjI [OF h kmer_enumeration_order [OF h]])
qed

text \<open>
  C4. For a data frame with at least one record, a \<open>Sequence\<close> column of non-empty strings
  and a \<open>Label\<close> column, \<open>process_features\<close> with the features
  \<open>MonogramComp, BigramComp\<close> returns one
  row vector per record, of length \<open>20 + 400\<close>: its first 20 entries are the
  \<open>generate_ngram_composition\<close> vector of the record's sequence for \<open>n = 1\<close>, the next
  400 the vector for \<open>n = 2\<close>. The blocks follow the order of the list: with
  \<open>BigramComp, MonogramComp\<close> the row is the bigram vector followed by the monogram
  vector.
\<close>

theorem monogram_bigram_row_layout:
  fixes df :: "'f frame"
  assumes seqc: "''Sequence'' \<in> set (col_names df)"
    and seqr: "\<forall>row \<in> set (rows df). \<exists>s. row ''Sequence'' = Some (PStr s) \<and> s \<noteq> []"
    and labc: "''Label'' \<in> set (col_names df)"
    and labr: "\<forall>row \<in> set (rows df). \<exists>l. row ''Label'' = Some l"
    and recs: "rows df \<noteq> []"
  shows "\<exists>X X' label sequences.
           process_features ops df [''MonogramComp'', ''BigramComp''] = Inr (X, label, sequences)
         \<and> process_features ops df [''BigramComp'', ''MonogramComp''] = Inr (X', label, sequences)
         \<and> length X = length (rows df) \<and> length X' = length (rows df)
         \<and> (\<forall>i < length (rows df). \<exists>s mono bi.
                (rows df ! i) ''Sequence'' = Some (PStr s)
              \<and> generate_ngram_composition ops (PStr s :: 'f pyval) 1 = Inr mono
              \<and> generate_ngram_composition ops (PStr s :: 'f pyval) 2 = Inr bi
              \<and> length (X ! i) = 20 + 400
              \<and> take 20 (X ! i) = map PFloat mono
              \<and> take 400 (drop 20 (X ! i)) = map PFloat bi
              \<and> X ! i = map PFloat mono @ map PFloat bi
              \<and> X' ! i = map PFloat bi @ map PFloat mono)"
proof -
  let ?five = "{''MonogramComp'', ''BigramComp'', ''TrigramComp'', ''MonogramOccur'', ''BigramOccur''}"
  let ?X = "map (\<lambda>row. concat (map (\<lambda>c. feature_items ops c (seq_of row))
                                  [''MonogramComp'', ''BigramComp''])) (rows df)"
  let ?X' = "map (\<lambda>row. concat (map (\<lambda>c. feature_items ops c (seq_of row))
                                  [''BigramComp'', ''MonogramComp''])) (rows df)"
  let ?lab = "map (\<lambda>row. the (row ''Label'')) (rows df)"
  let ?seqs = "map (\<lambda>row. PStr (seq_of row) :: 'f pyval) (rows df)"
  have "set [''MonogramComp'', ''BigramComp''] \<subseteq> ?five" by simp
  from process_features_recognized [OF seqc seqr labc labr this recs]
  have p: "process_features ops df [''MonogramComp'', ''BigramComp''] = Inr (?X, ?lab, ?seqs)" .
  have "set [''BigramComp'', ''MonogramComp''] \<subseteq> ?five" by simp
  from process_features_recognized [OF seqc seqr labc labr this recs]
  have p': "process_features ops df [''BigramComp'', ''MonogramComp''] = Inr (?X', ?lab, ?seqs)" .
  have row: "\<exists>s mono bi.
                (rows df ! i) ''Sequence'' = Some (PStr s)
              \<and> generate_ngram_composition ops (PStr s :: 'f pyval) 1 = Inr mono
              \<and> generate_ngram_composition ops (PStr s :: 'f pyval) 2 = Inr bi
              \<and> length (?X ! i) = 20 + 400
              \<and> take 20 (?X ! i) = map PFloat mono
              \<and> take 400 (drop 20 (?X ! i)) = map PFloat bi
              \<and> ?X ! i = map PFloat mono @ map PFloat bi
              \<and> ?X' ! i = map PFloat bi @ map PFloat mono"
    if i: "i < length (rows df)" for i
  proof -
    from i have "rows df ! i \<in> set (rows df)" by (rule nth_mem)
    with seqr obtain s where s: "(rows df ! i) ''Sequence'' = Some (PStr s)" and ne: "s \<noteq> []"
      by blast
    from s have so: "seq_of (rows df ! i) = s" by (simp add: seq_of_def)
    from composition_items_eq [of 1 s ops] ne obtain mono where
      m: "generate_ngram_composition ops (PStr s :: 'f pyval) 1 = Inr mono"
         "composition_items ops 1 s = map PFloat mono" "length mono = 20"
      by (auto simp add: ssize_max_def)
    from composition_items_eq [of 2 s ops] ne obtain bi where
      b: "generate_ngram_composition ops (PStr s :: 'f pyval) 2 = Inr bi"
         "composition_items ops 2 s = map PFloat bi" "length bi = 400"
      by (auto simp add: ssize_max_def)
    have x: "?X ! i = map PFloat mono @ map PFloat bi"
      using i so m(2) b(2) by (simp add: feature_items_def)
    have x': "?X' ! i = map PFloat bi @ map PFloat mono"
      using i so m(2) b(2) by (simp add: feature_items_def)
    have "length (?X ! i) = 20 + 400" "take 20 (?X ! i) = map PFloat mono"
      "take 400 (drop 20 (?X ! i)) = map PFloat bi"
      using m(3) b(3) by (simp_all only: x length_append length_map take_append drop_append)
        simp_all
    with s m(1) b(1) x x' show ?thesis by blast
  qed
  have "length ?X = length (rows df)" "length ?X' = length (rows df)" by simp_all
  with p p' row show ?thesis by blast
qed


theorem monogram_bigram_row_layout_witness:
  "''Sequence'' \<in> set (col_names example_frame)
   \<and> map (\<lambda>row. row ''Sequence'') (rows example_frame) = [Some (PStr ''AC''), Some (PStr ''GG'')]
   \<and> ''Label'' \<in> set (col_names example_frame)
   \<and> map (\<lambda>row. row ''Label'') (rows example_frame) = [Some (PInt 1), Some (PInt 0)]
   \<and> (\<exists>X label sequences.
          process_features sym_ops example_frame [''MonogramComp'', ''BigramComp''] =
            Inr (X, label, sequences)
        \<and> length X = length (rows example_frame)
        \<and> (\<forall>i < length (rows example_frame). length (X ! i) = 20 + 400))"
proof -
  have h1: "''Sequence'' \<in> set (col_names example_frame)"
    by (simp add: example_frame_def)
  have h2: "\<forall>row \<in> set (rows example_frame). \<exists>s. row ''Sequence'' = Some (PStr s) \<and> s \<noteq> []"
    by (simp add: example_frame_def)
  have h3: "''Label'' \<in> set (col_names example_frame)"
    by (simp add: example_frame_def)
  have h4: "\<forall>row \<in> set (rows example_frame). \<exists>l. row ''Label'' = Some l"
    by (simp add: example_frame_def)
  have h5: "rows example_frame \<noteq> []"
    by (simp add: example_frame_def)
  from monogram_bigram_row_layout [OF h1 h2 h3 h4 h5, of sym_ops]
  obtain X label sequences where
    p: "process_features sym_ops example_frame [''MonogramComp'', ''BigramComp''] =
          Inr (X, label, sequences)"
    and l: "length X = length (rows example_frame)"
    and r: "\<forall>i < length (rows example_frame). \<exists>s mono bi.
                (rows example_frame ! i) ''Sequence'' = Some (PStr s)
              \<and> generate_ngram_composition sym_ops (PStr s :: sym_float pyval) 1 = Inr mono
              \<and> generate_ngram_composition sym_ops (PStr s :: sym_float pyval) 2 = Inr bi
              \<and> length (X ! i) = 20 + 400
              \<and> take 20 (X ! i) = map PFloat mono
              \<and> take 400 (drop 20 (X ! i)) = map PFloat bi
              \<and> X ! i = map PFloat mono @ map PFloat bi"
    by blast
  from r have "\<forall>i < length (rows example_frame). length (X ! i) = 20 + 400" by blast
  with p l have "\<exists>X label sequences.
          process_features sym_ops example_frame [''MonogramComp'', ''BigramComp''] =
            Inr (X, label, sequences)
        \<and> length X = length (rows example_frame)
        \<and> (\<forall>i < length (rows example_frame). length (X ! i) = 20 + 400)" by blast
  moreover have "map (\<lambda>row. row ''Sequence'') (rows example_frame) =
                   [Some (PStr ''AC''), Some (PStr ''GG'')]"
    and "map (\<lambda>row. row ''Label'') (rows example_frame) = [Some (PInt 1), Some (PInt 0)]"
    by (simp_all add: example_frame_def)
  ultimately show ?thesis using h1 h3 by (intro conjI)
qed

text \<open>
  C7, as the specification states it: for an unrecognised identifier the assembled row
  vector has the length 400 of a \<open>BigramOccur\<close> vector. For the identifier \<open>Foo\<close> on a
  frame of two records no row vector is assembled: \<open>process_features\<close> raises
  \<open>KeyError\<close>.
\<close>

theorem unrecognized_identifier_counterexample:
  "process_features sym_ops example_frame [''Foo''] = Inl (KeyError ''Foo'')"
  by code_simp

text \<open>
  C7, amended: for every identifier \<open>u\<close> outside the five recognised ones,
  \<open>generate_features\<close> does what it does for \<open>BigramOccur\<close>: it stores the 400
  bigram counts of every record in the column \<open>BigramOccur\<close> and adds no column \<open>u\<close>.
  The row assembly then reads the column \<open>u\<close> itself, so on a frame with at least one
  record and no column of that name \<open>process_features\<close> raises \<open>KeyError\<close> and returns
  no row vector.
\<close>

theorem unrecognized_identifier_assembly_fails:
  fixes df :: "'f frame"
  assumes unrec: "u \<notin> {''MonogramComp'', ''BigramComp'', ''TrigramComp'', ''MonogramOccur'',
                        ''BigramOccur''}"
    and seqc: "''Sequence'' \<in> set (col_names df)"
    and seqr: "\<forall>row \<in> set (rows df). \<exists>s. row ''Sequence'' = Some (PStr s) \<and> s \<noteq> []"
    and rows: "rows df \<noteq> []"
    and nocol: "\<forall>row \<in> set (rows df). row u = None"
  shows "generate_features ops df [u] = generate_features ops df [''BigramOccur'']
       \<and> (\<exists>df'. generate_features ops df [u] = Inr df'
             \<and> length (rows df') = length (rows df)
             \<and> (\<forall>i < length (rows df). \<exists>s occ.
                    (rows df ! i) ''Sequence'' = Some (PStr s)
                  \<and> generate_ngram_occurences (PStr s :: 'f pyval) 2 = Inr occ
                  \<and> length occ = 400
                  \<and> (rows df' ! i) ''BigramOccur'' = Some (PList (map PInt occ))
                  \<and> (rows df' ! i) u = None))
       \<and> process_features ops df [u] = Inl (KeyError u)"
proof -
  from unrec have ne: "u \<noteq> ''MonogramComp''" "u \<noteq> ''BigramComp''" "u \<noteq> ''TrigramComp''"
    "u \<noteq> ''MonogramOccur''" "u \<noteq> ''BigramOccur''" by auto
  have fb: "generate_features ops df [u] = generate_features ops df [''BigramOccur'']"
    using ne by simp
  have fc: "feature_column u = ''BigramOccur''" using ne by (simp add: feature_column_def)
  have fi: "feature_items ops u s = occurrence_items 2 s" for s
    using ne by (simp add: feature_items_def)
  from generate_features_ok [OF seqc seqr, of ops "[u]"] obtain cols where
    g: "generate_features ops df [u] =
          Inr \<lparr> col_names = cols, rows = map (add_features ops [u]) (rows df) \<rparr>" by blast
  have af: "add_features ops [u] row = row(''BigramOccur'' \<mapsto> PList (occurrence_items 2 (seq_of row)))"
    for row :: "string \<rightharpoonup> 'f pyval"
    by (simp add: add_features_def fc fi)
  have row: "\<exists>s occ. (rows df ! i) ''Sequence'' = Some (PStr s)
                  \<and> generate_ngram_occurences (PStr s :: 'f pyval) 2 = Inr occ
                  \<and> length occ = 400
                  \<and> (map (add_features ops [u]) (rows df) ! i) ''BigramOccur'' =
                      Some (PList (map PInt occ))
                  \<and> (map (add_features ops [u]) (rows df) ! i) u = None"
    if i: "i < length (rows df)" for i
  proof -
    from i have mem: "rows df ! i \<in> set (rows df)" by (rule nth_mem)
    with seqr obtain s where s: "(rows df ! i) ''Sequence'' = Some (PStr s)" by blast
    then have so: "seq_of (rows df ! i) = s" by (simp add: seq_of_def)
    from occurrence_items_eq [of 2 s] obtain occ where
      o: "generate_ngram_occurences (PStr s :: 'f pyval) 2 = Inr occ"
         "occurrence_items 2 s = (map PInt occ :: 'f pyval list)" "length occ = 400"
      by (auto simp add: ssize_max_def)
    from mem nocol have "(rows df ! i) u = None" by blast
    with i so o(2) ne(5) have
      "(map (add_features ops [u]) (rows df) ! i) ''BigramOccur'' = Some (PList (map PInt occ))"
      "(map (add_features ops [u]) (rows df) ! i) u = None"
      by (simp_all add: af)
    with s o(1,3) show ?thesis by blast
  qed
  have fail: "map_err (\<lambda>row. concatenate_columns row [u]) (map (add_features ops [u]) (rows df)) =
          Inl (KeyError u)"
  proof (rule map_err_first_fails)
    show "map (add_features ops [u]) (rows df) \<noteq> []" using rows by simp
    fix r assume "r \<in> set (map (add_features ops [u]) (rows df))"
    then obtain row where "row \<in> set (rows df)" and r: "r = add_features ops [u] row" by auto
    with nocol have "row u = None" by blast
    with ne(5) have "r u = None" by (simp add: r af)
    then show "concatenate_columns r [u] = Inl (KeyError u)"
      by (simp add: concatenate_columns_def)
  qed
  have ar: "apply_rows \<lparr> col_names = cols, rows = map (add_features ops [u]) (rows df) \<rparr> [u] =
              Inl (KeyError u)"
    using rows fail by (simp add: apply_rows_def)
  have pf: "process_features ops df [u] = Inl (KeyError u)"
    by (simp only: process_features_def g sum.case ar)
  have "\<exists>df'. generate_features ops df [u] = Inr df'
             \<and> length (rows df') = length (rows df)
             \<and> (\<forall>i < length (rows df). \<exists>s occ.
                    (rows df ! i) ''Sequence'' = Some (PStr s)
                  \<and> generate_ngram_occurences (PStr s :: 'f pyval) 2 = Inr occ
                  \<and> length occ = 400
                  \<and> (rows df' ! i) ''BigramOccur'' = Some (PList (map PInt occ))
                  \<and> (rows df' ! i) u = None)"
    apply (rule exI [of _ "\<lparr> col_names = cols, rows = map (add_features ops [u]) (rows df) \<rparr>"])
    apply (simp only: g frame.select_convs length_map)
    apply (intro conjI allI impI refl)
    apply (rule row, assumption)
    done
  with fb pf show ?thesis by (intro conjI)
qed

theorem unrecognized_identifier_assembly_fails_witness:
  "''Foo'' \<notin> {''MonogramComp'', ''BigramComp'', ''TrigramComp'', ''MonogramOccur'', ''BigramOccur''}
   \<and> ''Sequence'' \<in> set (col_names example_frame)
   \<and> map (\<lambda>row. row ''Sequence'') (rows example_frame) = [Some (PStr ''AC''), Some (PStr ''GG'')]
   \<and> map (\<lambda>row. row ''Foo'') (rows example_frame) = [None, None]
   \<and> generate_features sym_ops example_frame [''Foo''] =
       generate_features sym_ops example_frame [''BigramOccur'']
   \<and> process_features sym_ops example_frame [''Foo''] = Inl (KeyError ''Foo'')"
proof -
  have h0: "''Foo'' \<notin> {''MonogramComp'', ''BigramComp'', ''TrigramComp'', ''MonogramOccur'',
                         ''BigramOccur''}" by simp
  have h1: "''Sequence'' \<in> set (col_names example_frame)"
    by (simp add: example_frame_def)
  have h2: "\<forall>row \<in> set (rows example_frame). \<exists>s. row ''Sequence'' = Some (PStr s) \<and> s \<noteq> []"
    by (simp add: example_frame_def)
  have h3: "rows example_frame \<noteq> []"
    by (simp add: example_frame_def)
  have h4: "\<forall>row \<in> set (rows example_frame). row ''Foo'' = None"
    by (simp add: example_frame_def)
  from unrecognized_identifier_assembly_fails [OF h0 h1 h2 h3 h4, of sym_ops]
  have "generate_features sym_ops example_frame [''Foo''] =
          generate_features sym_ops example_frame [''BigramOccur'']"
    and "process_features sym_ops example_frame [''Foo''] = Inl (KeyError ''Foo'')"
    by blast+
  moreover have "map (\<lambda>row. row ''Sequence'') (rows example_frame) =
                   [Some (PStr ''AC''), Some (PStr ''GG'')]"
    and "map (\<lambda>row. row ''Foo'') (rows example_frame) = [None, None]"
    by (simp_all add: example_frame_def)
  ultimately show ?thesis using h0 h1 by (intro conjI)
qed

text \<open>
  C8, as the specification states it: a model kind other than \<open>svm-rbf\<close> and
  \<open>svm-linear\<close> fails with a clear "unsupported model kind" error. For \<open>svm-poly\<close> the
  exception is the \<open>UnboundLocalError\<close> of the local variable \<open>model1\<close>, which names
  neither the model kind nor its value.
\<close>

theorem unsupported_model_counterexample:
  "classifiers sym_ops (stub_sklearn [0, 1]) () [0, 1] () [0, 0] [''AC'', ''GG''] ''svm-poly''
     = Inl (UnboundLocalError ''model1'')"
  by (simp add: classifiers_def select_model_def)

text \<open>
  C8, amended: for every model-kind string other than \<open>svm-rbf\<close> and \<open>svm-linear\<close>,
  \<open>classifiers\<close> selects no classifier and raises \<open>UnboundLocalError\<close> for \<open>model1\<close>
  at the call of \<open>fit\<close>, whatever the data and whatever scikit-learn would do: nothing
  is fitted and no classifier is used by default.
\<close>

theorem unsupported_model_unbound_local:
  assumes "model \<noteq> ''svm-rbf''" and "model \<noteq> ''svm-linear''"
  shows "classifiers ops sk x_train y_train x_test y_test test_seq model =
           Inl (UnboundLocalError ''model1'')"
  using assms by (simp add: classifiers_def select_model_def)

theorem unsupported_model_unbound_local_witness:
  "''knn'' \<noteq> ''svm-rbf'' \<and> ''knn'' \<noteq> ''svm-linear''
   \<and> classifiers sym_ops (stub_sklearn [0, 1]) () [0, 1] () [0, 0] [''AC'', ''GG''] ''knn''
       = Inl (UnboundLocalError ''model1'')"
proof -
  have h1: "''knn'' \<noteq> ''svm-rbf''" and h2: "''knn'' \<noteq> ''svm-linear''" by simp_all
  from unsupported_model_unbound_local [OF h1 h2] h1 h2 show ?thesis by (intro conjI)
qed

text \<open>
  C9, as the specification states it: a test set without one of the classes makes the
  harness fail with a data-insufficiency error. With the true labels \<open>0, 0\<close> and the
  predictions \<open>0, 1\<close> the confusion matrix has \<open>TP + FN = 0\<close>, and \<open>classifiers\<close>
  returns its report, with NaN as sensitivity.
\<close>

theorem absent_class_counterexample:
  "classifiers sym_ops (stub_sklearn [0, 1]) () [0, 1] () [0, 0] [''AC'', ''GG''] ''svm-linear''
     = Inr \<lparr> output_rows = [(''AC'', ''Negative'', ''Negative''),
                               (''GG'', ''Negative'', ''Positive'')],
              true_negative = 1, false_positive = 1, false_negative = 0, true_positive = 0,
              accuracy = Finite (Times100 (Quot 1 2)),
              sensitivity = NaN,
              specificity = Finite (Times100 (Quot 1 2)),
              f1 = Finite (Quot 1 2), mcc = Finite (Quot 1 2), auc_mean = Finite (Quot 1 2) \<rparr>"
  by code_simp

text \<open>
  C9, amended: whenever the model kind is supported, the scikit-learn calls return and the
  sequences match the test labels in number, \<open>classifiers\<close> returns its report and
  raises nothing: with \<open>TP + FN = 0\<close> the sensitivity is NaN (numpy's \<open>0 / 0\<close>), with
  \<open>TN + FP = 0\<close> the specificity is NaN.
\<close>

theorem absent_class_rate_is_nan:
  assumes model: "select_model model = Some k"
    and fit: "svc_fit sk k x_train y_train = Inr m"
    and predict: "svc_predict sk m x_test = Inr y_pred"
    and proba: "svc_predict_proba1 sk m x_test = Inr y_proba"
    and cm: "confusion_matrix y_test y_pred = Inr cm"
    and cells: "cm_iadd_ravel cm = Inr (TN, FP, FN, TP)"
    and metrics: "accuracy_score sk y_test y_pred = Inr acc" "f1_score sk y_test y_pred = Inr F1"
      "matthews_corrcoef sk y_test y_pred = Inr MCC" "recall_score sk y_test y_pred = Inr Recall"
      "roc_auc sk y_test y_proba = Inr AUC"
    and len: "length test_seq = length y_test"
  shows "\<exists>r. classifiers ops sk x_train y_train x_test y_test test_seq model = Inr r
           \<and> true_negative r = TN \<and> false_positive r = FP
           \<and> false_negative r = FN \<and> true_positive r = TP
           \<and> (TP + FN = 0 \<longrightarrow> sensitivity r = NaN)
           \<and> (TN + FP = 0 \<longrightarrow> specificity r = NaN)"
proof -
  from cm_cells_nonneg [OF confusion_matrix_nonneg [OF cm] cells]
  have nn: "0 \<le> TN" "0 \<le> FP" "0 \<le> FN" "0 \<le> TP" by simp_all
  have sens: "np_times100 ops (np_true_divide ops TP (TP + FN)) = NaN" if "TP + FN = 0"
  proof -
    from that nn have "TP = 0" by simp
    with that show ?thesis by (simp add: np_true_divide_def np_times100_def)
  qed
  have spec: "np_times100 ops (np_true_divide ops TN (TN + FP)) = NaN" if "TN + FP = 0"
  proof -
    from that nn have "TN = 0" by simp
    with that show ?thesis by (simp add: np_true_divide_def np_times100_def)
  qed
  have "classifiers ops sk x_train y_train x_test y_test test_seq model =
          make_report ops test_seq y_test y_pred (TN, FP, FN, TP) acc F1 MCC AUC"
    by (simp add: classifiers_def evaluate_def bind_err_def model fit predict proba cm cells
        metrics)
  with len sens spec show ?thesis by (simp add: make_report_def)
qed

theorem absent_class_rate_is_nan_witness:
  "select_model ''svm-linear'' = Some Linear
   \<and> svc_fit (stub_sklearn [0, 1]) Linear () [0, 1] = Inr ()
   \<and> svc_predict (stub_sklearn [0, 1]) () () = Inr [0, 1]
   \<and> confusion_matrix [0, 0] [0, 1] = Inr [[1, 1], [0, 0]]
   \<and> cm_iadd_ravel [[1, 1], [0, 0]] = Inr (1, 1, 0, 0)
   \<and> (\<exists>r. classifiers sym_ops (stub_sklearn [0, 1]) () [0, 1] () [0, 0] [''AC'', ''GG'']
             ''svm-linear'' = Inr r
          \<and> true_positive r = 0 \<and> false_negative r = 0 \<and> sensitivity r = NaN)"
proof -
  have model: "select_model ''svm-linear'' = Some Linear" by (simp add: select_model_def)
  have fit: "svc_fit (stub_sklearn [0, 1]) Linear () [0, 1] = Inr ()"
    by (simp add: stub_sklearn_def)
  have predict: "svc_predict (stub_sklearn [0, 1]) () () = Inr [0, 1]"
    by (simp add: stub_sklearn_def)
  have proba: "svc_predict_proba1 (stub_sklearn [0, 1]) () () =
                 Inr [Finite (Quot 0 1), Finite (Quot 1 1)]"
    by (simp add: stub_sklearn_def)
  have cm: "confusion_matrix [0, 0] [0, 1] = Inr [[1, 1], [0, 0]]"
    by (simp add: confusion_matrix_def)
  have cells: "cm_iadd_ravel [[1, 1], [0, 0]] = Inr (1, 1, 0, 0)"
    by (simp add: cm_iadd_ravel_def)
  have metrics: "accuracy_score (stub_sklearn [0, 1]) [0, 0] [0, 1] = Inr (Finite (Quot 1 2))"
    "f1_score (stub_sklearn [0, 1]) [0, 0] [0, 1] = Inr (Finite (Quot 1 2))"
    "matthews_corrcoef (stub_sklearn [0, 1]) [0, 0] [0, 1] = Inr (Finite (Quot 1 2))"
    "recall_score (stub_sklearn [0, 1]) [0, 0] [0, 1] = Inr (Finite (Quot 1 2))"
    "roc_auc (stub_sklearn [0, 1]) [0, 0] [Finite (Quot 0 1), Finite (Quot 1 1)] =
       Inr (Finite (Quot 1 2))"
    by (simp_all add: stub_sklearn_def)
  have len: "length [''AC'', ''GG''] = length [0 :: int, 0]" by simp
  from absent_class_rate_is_nan [OF model fit predict proba cm cells metrics len, of sym_ops]
  have "\<exists>r. classifiers sym_ops (stub_sklearn [0, 1]) () [0, 1] () [0, 0] [''AC'', ''GG'']
             ''svm-linear'' = Inr r
          \<and> true_positive r = 0 \<and> false_negative r = 0 \<and> sensitivity r = NaN"
    by auto
  with model fit predict cm cells show ?thesis by (intro conjI)
qed

end
